theory Spec2Isabelle
  imports Complex_Main "HOL-Library.Log_Nat"
begin

section \<open>JavaScript values\<close>

subsection \<open>Numbers\<close>

text \<open>
  A JavaScript Number is an IEEE-754 binary64 value: a finite double (a rational number, here
  \<^typ>\<open>rat\<close>), an infinity or NaN. The two zeros are identified: every test the service
  performs (truthiness, \<^verbatim>\<open>typeof\<close>, \<^verbatim>\<open>Number.isNaN\<close>, Map key equality) and the JSON
  rendering treat \<^verbatim>\<open>-0\<close> like \<^verbatim>\<open>0\<close>.
\<close>

datatype jsnum = Fin rat | PInf | NInf | NaN

definition pow2 :: "int \<Rightarrow> rat" where
  "pow2 e = (if 0 \<le> e then 2 ^ nat e else 1 / 2 ^ nat (- e))"

text \<open>For \<open>0 < x\<close>, the exponent \<open>k\<close> with \<open>2 ^ k \<le> x < 2 ^ (k + 1)\<close>.\<close>

definition floor_log2 :: "rat \<Rightarrow> int" where
  "floor_log2 x = (if 1 \<le> x then bitlen \<lfloor>x\<rfloor> - 1 else - bitlen (\<lceil>1 / x\<rceil> - 1))"

definition round_half_even :: "rat \<Rightarrow> int" where
  "round_half_even x =
     (let f = \<lfloor>x\<rfloor>; d = x - of_int f
      in if d < 1 / 2 then f else if 1 / 2 < d then f + 1 else if even f then f else f + 1)"

text \<open>
  Rounding of an exact result to binary64, round-to-nearest with ties to even: 53 significant
  bits, the least exponent of a unit in the last place is \<open>-1074\<close> (subnormals), and a result
  that rounds to \<open>2 ^ 1024\<close> or more is an infinity.
\<close>

definition js_round :: "rat \<Rightarrow> jsnum" where
  "js_round x =
     (if x = 0 then Fin 0
      else let a = \<bar>x\<bar>;
               e = max (floor_log2 a - 52) (- 1074);
               m = round_half_even (a / pow2 e);
               y = of_int m * pow2 e
           in if pow2 1024 \<le> y then (if 0 < x then PInf else NInf)
              else Fin (if 0 < x then y else - y))"

text \<open>The values a Number can hold: the rationals that rounding leaves unchanged.\<close>

fun is_double :: "jsnum \<Rightarrow> bool" where
  "is_double (Fin x) = (js_round x = Fin x)"
| "is_double _ = True"

text \<open>The operator \<^verbatim>\<open>+\<close> on two Numbers.\<close>

fun js_add :: "jsnum \<Rightarrow> jsnum \<Rightarrow> jsnum" where
  "js_add NaN _ = NaN"
| "js_add _ NaN = NaN"
| "js_add PInf NInf = NaN"
| "js_add NInf PInf = NaN"
| "js_add PInf _ = PInf"
| "js_add _ PInf = PInf"
| "js_add NInf _ = NInf"
| "js_add _ NInf = NInf"
| "js_add (Fin a) (Fin b) = js_round (a + b)"

subsection \<open>Values and the operations the service applies to them\<close>

text \<open>
  A value as a request or a downstream reply delivers it, together with \<^verbatim>\<open>undefined\<close>, which
  reading an absent property yields. An object is the list of its own properties, read by its
  first entry for a key.
\<close>

datatype js = JUndefined | JNull | JBool bool | JNum jsnum | JStr string
  | JArr "js list" | JObj "(string \<times> js) list"

text \<open>The condition of \<^verbatim>\<open>!v\<close>, \<^verbatim>\<open>v || w\<close> and \<^verbatim>\<open>if (v)\<close>.\<close>

fun truthy :: "js \<Rightarrow> bool" where
  "truthy JUndefined = False"
| "truthy JNull = False"
| "truthy (JBool b) = b"
| "truthy (JNum n) = (n \<noteq> NaN \<and> n \<noteq> Fin 0)"
| "truthy (JStr s) = (s \<noteq> [])"
| "truthy (JArr _) = True"
| "truthy (JObj _) = True"

definition js_or :: "js \<Rightarrow> js \<Rightarrow> js" where
  "js_or v w = (if truthy v then v else w)"

text \<open>
  The message of an error: a string the service knows (\<open>Text\<close>), the string conversion of a
  value that is not a string, which is left symbolic (\<open>StringOf\<close>), or the text the runtime
  gives an exception of its own, named by the exception (\<open>RuntimeText\<close>).
\<close>

datatype message = Text string | StringOf js | RuntimeText string

text \<open>An \<^verbatim>\<open>Error\<close> object: its \<^verbatim>\<open>message\<close>, and its \<^verbatim>\<open>status\<close> when one was assigned.\<close>

datatype js_error = JsError (message: message) (status: "nat option")

text \<open>
  Reading \<^verbatim>\<open>v.k\<close> (also by destructuring) for the property names the service uses, none of
  which is inherited: a TypeError on \<^verbatim>\<open>null\<close> and \<^verbatim>\<open>undefined\<close>, \<^verbatim>\<open>undefined\<close> on any
  value without that own property.
\<close>

fun get_prop :: "js \<Rightarrow> string \<Rightarrow> js_error + js" where
  "get_prop JUndefined k = Inl (JsError (RuntimeText ''TypeError: undefined has no properties'') None)"
| "get_prop JNull k = Inl (JsError (RuntimeText ''TypeError: null has no properties'') None)"
| "get_prop (JObj kvs) k = Inr (case map_of kvs k of None \<Rightarrow> JUndefined | Some v \<Rightarrow> v)"
| "get_prop _ k = Inr JUndefined"

text \<open>\<^verbatim>\<open>new Error(v).message\<close>: the string itself, or the conversion of another value.\<close>

fun error_message :: "js \<Rightarrow> message" where
  "error_message (JStr s) = Text s"
| "error_message v = StringOf v"

section \<open>Downstream client\<close>

text \<open>
  What \<^verbatim>\<open>fetch\<close> and \<^verbatim>\<open>res.text()\<close> deliver for one call: nothing, because building the
  request threw or the fetch or the reading of the body rejected (the downstream is
  unreachable), or a reply with its status, status text and body text. Of the body text only
  what \<^verbatim>\<open>JSON.parse\<close> makes of it matters: it is empty, it parses to a value, or the parser
  rejects it with a SyntaxError.
\<close>

datatype body_text = NoText | JsonText js | BadText

datatype fetch_result = Threw | Reply nat string body_text

text \<open>
  The three downstream calls, with the values put into the URL and the body:
  \<^verbatim>\<open>GET /users/:userId\<close>, \<^verbatim>\<open>POST /users {name, email}\<close> and
  \<^verbatim>\<open>POST /products/:productId/assign {accountId}\<close>. The network answers each call.
\<close>

datatype call = GetUser js | CreateUser js js | AssignProduct js string

type_synonym net = "call \<Rightarrow> fetch_result"

text \<open>\<^verbatim>\<open>res.ok\<close>\<close>

definition ok :: "nat \<Rightarrow> bool" where
  "ok s = (200 \<le> s \<and> s \<le> 299)"

text \<open>\<^verbatim>\<open>text ? JSON.parse(text) : {}\<close>\<close>

fun parse_body :: "body_text \<Rightarrow> js_error + js" where
  "parse_body NoText = Inr (JObj [])"
| "parse_body (JsonText v) = Inr v"
| "parse_body BadText = Inl (JsError (RuntimeText ''SyntaxError: JSON.parse'') None)"

definition fetchJson :: "net \<Rightarrow> call \<Rightarrow> js_error + js" where
  "fetchJson net c =
     (case net c of
        Threw \<Rightarrow> Inl (JsError (RuntimeText ''TypeError: fetch failed'') None)
      | Reply s statusText text \<Rightarrow>
          (case parse_body text of
             Inl e \<Rightarrow> Inl e
           | Inr data \<Rightarrow>
               if \<not> ok s then
                 (case get_prop data ''error'' of
                    Inl e \<Rightarrow> Inl e
                  | Inr ev \<Rightarrow> Inl (JsError (error_message (js_or ev (JStr statusText))) (Some s)))
               else Inr data))"

text \<open>\<^verbatim>\<open>data.user || data\<close> and \<^verbatim>\<open>assignmentResponse.assignment || assignmentResponse\<close>\<close>

definition unwrap :: "js \<Rightarrow> string \<Rightarrow> js_error + js" where
  "unwrap data k = (case get_prop data k of Inl e \<Rightarrow> Inl e | Inr v \<Rightarrow> Inr (js_or v data))"

definition ensureUserExists :: "net \<Rightarrow> js \<Rightarrow> js_error + js" where
  "ensureUserExists net userId =
     (case fetchJson net (GetUser userId) of Inl e \<Rightarrow> Inl e | Inr data \<Rightarrow> unwrap data ''user'')"

section \<open>Account ledger\<close>

text \<open>
  An account object \<^verbatim>\<open>{ id, userId, type, createdAt }\<close>. The user id and the type are whatever
  values the request or the identity service supplied.
\<close>

record account =
  account_id :: string
  userId :: js
  account_type :: js
  createdAt :: string

text \<open>
  A \<^verbatim>\<open>Map\<close> keyed by values: strings, numbers, booleans, \<^verbatim>\<open>null\<close> and \<^verbatim>\<open>undefined\<close> are
  found again by value; an array or an object is a key by identity, and every request and
  every reply delivers fresh ones, so such a key is never found again.
\<close>

fun primitive :: "js \<Rightarrow> bool" where
  "primitive (JArr _) = False"
| "primitive (JObj _) = False"
| "primitive _ = True"

definition map_get :: "(js \<times> 'v) list \<Rightarrow> js \<Rightarrow> 'v option" where
  "map_get m k = (if primitive k then map_of m k else None)"

fun map_put :: "(js \<times> 'v) list \<Rightarrow> js \<Rightarrow> 'v \<Rightarrow> (js \<times> 'v) list" where
  "map_put [] k v = [(k, v)]"
| "map_put ((k', v') # m) k v = (if k' = k then (k, v) # m else (k', v') # map_put m k v)"

definition map_set :: "(js \<times> 'v) list \<Rightarrow> js \<Rightarrow> 'v \<Rightarrow> (js \<times> 'v) list" where
  "map_set m k v = (if primitive k then map_put m k v else m @ [(k, v)])"

text \<open>
  The module state: \<^verbatim>\<open>accountsById\<close>, \<^verbatim>\<open>accountsByUserId\<close>, \<^verbatim>\<open>balancesByAccountId\<close> and
  \<^verbatim>\<open>accountCounter\<close>. The counter is a natural number: it would have to pass \<open>2 ^ 53\<close>
  before the increment of a Number stops counting.
\<close>

record ledger =
  accountsById :: "string \<rightharpoonup> account"
  accountsByUserId :: "(js \<times> account list) list"
  balancesByAccountId :: "string \<rightharpoonup> jsnum"
  accountCounter :: nat

definition initial :: ledger where
  "initial = \<lparr>accountsById = Map.empty, accountsByUserId = [],
              balancesByAccountId = Map.empty, accountCounter = 1\<rparr>"

text \<open>The decimal digits of the counter, as the template literal \<^verbatim>\<open>`a${accountCounter++}`\<close> prints it.\<close>

definition digit :: "nat \<Rightarrow> char" where
  "digit d = char_of (48 + d)"

fun digits :: "nat \<Rightarrow> string" where
  "digits n = (if n < 10 then [digit n] else digits (n div 10) @ [digit (n mod 10)])"

declare digits.simps [simp del]

text \<open>\<^verbatim>\<open>createAccount({ userId, type })\<close>, with the clock's reading passed in.\<close>

definition createAccount :: "ledger \<Rightarrow> js \<Rightarrow> js \<Rightarrow> string \<Rightarrow> account \<times> ledger" where
  "createAccount st uid ty now =
     (let aid = ''a'' @ digits (accountCounter st);
          account = \<lparr>account_id = aid, userId = uid, account_type = ty, createdAt = now\<rparr>;
          existing = (case map_get (accountsByUserId st) uid of None \<Rightarrow> [] | Some xs \<Rightarrow> xs)
      in (account,
          st\<lparr>accountCounter := Suc (accountCounter st),
             accountsById := (accountsById st)(aid \<mapsto> account),
             accountsByUserId := map_set (accountsByUserId st) uid (existing @ [account]),
             balancesByAccountId := (balancesByAccountId st)(aid \<mapsto> Fin 0)\<rparr>))"

text \<open>\<^verbatim>\<open>balancesByAccountId.get(id) || 0\<close>: zero for a missing entry, for \<^verbatim>\<open>0\<close> and for NaN.\<close>

definition balance_or_zero :: "jsnum option \<Rightarrow> jsnum" where
  "balance_or_zero b =
     (case b of None \<Rightarrow> Fin 0 | Some n \<Rightarrow> if n = NaN \<or> n = Fin 0 then Fin 0 else n)"

definition applyCredit :: "ledger \<Rightarrow> string \<Rightarrow> jsnum \<Rightarrow> jsnum \<times> ledger" where
  "applyCredit st accountId amount =
     (let current = balance_or_zero (balancesByAccountId st accountId);
          next = js_add current amount
      in (next, st\<lparr>balancesByAccountId := (balancesByAccountId st)(accountId \<mapsto> next)\<rparr>))"

section \<open>Request handlers\<close>

text \<open>
  The body of a response, by route, as the value handed to \<^verbatim>\<open>res.json\<close>, and the response
  with its status. A handler is one step: it takes the network's answers, the clock's reading
  and the ledger, and returns the response, the ledger it leaves and the trace of what it did,
  in order: the downstream calls it made, the accounts it created and the credits it applied.
  Requests that interleave at the \<^verbatim>\<open>await\<close> points of another are not part of this model.
\<close>

datatype payload =
    ErrorP message
  | AccountP account
  | AccountBalanceP account jsnum
  | AccountsP "account list"
  | CreditP string jsnum
  | OnboardP js account js jsnum
  | HealthP

datatype http_response = Res nat payload

datatype event = Called call | Created account | Credited string jsnum

text \<open>The \<^verbatim>\<open>catch\<close> block: \<^verbatim>\<open>res.status(err.status || 500).json({ error: err.message })\<close>\<close>

definition on_error :: "js_error \<Rightarrow> http_response" where
  "on_error err =
     Res (case status err of None \<Rightarrow> 500 | Some s \<Rightarrow> if s = 0 then 500 else s)
         (ErrorP (message err))"

text \<open>
  The value a handler's destructuring \<^verbatim>\<open>const { k } = req.body || {}\<close> binds to \<open>k\<close>: the
  property of the body, \<^verbatim>\<open>undefined\<close> when the body has no such field or is not an object.
  The read cannot throw, since \<^verbatim>\<open>req.body || {}\<close> is neither \<^verbatim>\<open>null\<close> nor \<^verbatim>\<open>undefined\<close>.
\<close>

definition body_field :: "js \<Rightarrow> string \<Rightarrow> js" where
  "body_field body k =
     (case js_or body (JObj []) of
        JObj kvs \<Rightarrow> (case map_of kvs k of None \<Rightarrow> JUndefined | Some v \<Rightarrow> v)
      | _ \<Rightarrow> JUndefined)"

text \<open>\<^verbatim>\<open>POST /accounts\<close>\<close>

definition post_accounts ::
  "net \<Rightarrow> string \<Rightarrow> js \<Rightarrow> ledger \<Rightarrow> http_response \<times> ledger \<times> event list" where
  "post_accounts net now body st =
     (let uid = body_field body ''userId'';
          ty = (if body_field body ''type'' = JUndefined then JStr ''standard''
                else body_field body ''type'')
      in if \<not> truthy uid then (Res 400 (ErrorP (Text ''userId is required'')), st, [])
         else (case ensureUserExists net uid of
                 Inl e \<Rightarrow> (on_error e, st, [Called (GetUser uid)])
               | Inr _ \<Rightarrow>
                   let (account, st') = createAccount st uid ty now
                   in (Res 201 (AccountP account), st', [Called (GetUser uid), Created account])))"

text \<open>\<^verbatim>\<open>GET /accounts/:id\<close>\<close>

definition get_account :: "string \<Rightarrow> ledger \<Rightarrow> http_response \<times> ledger \<times> event list" where
  "get_account aid st =
     (case accountsById st aid of
        None \<Rightarrow> (Res 404 (ErrorP (Text ''account not found'')), st, [])
      | Some account \<Rightarrow>
          (Res 200 (AccountBalanceP account
                      (balance_or_zero (balancesByAccountId st (account_id account)))),
           st, []))"

text \<open>\<^verbatim>\<open>GET /accounts?userId=\<close>, given the parsed query \<^verbatim>\<open>req.query\<close>\<close>

definition list_accounts :: "js \<Rightarrow> ledger \<Rightarrow> http_response \<times> ledger \<times> event list" where
  "list_accounts query st =
     (let uid = body_field query ''userId''
      in if \<not> truthy uid then (Res 400 (ErrorP (Text ''userId query is required'')), st, [])
         else (Res 200 (AccountsP (case map_get (accountsByUserId st) uid of
                                     None \<Rightarrow> [] | Some xs \<Rightarrow> xs)),
               st, []))"

text \<open>\<^verbatim>\<open>POST /accounts/:id/credit\<close>\<close>

definition credit :: "string \<Rightarrow> js \<Rightarrow> ledger \<Rightarrow> http_response \<times> ledger \<times> event list" where
  "credit aid body st =
     (case accountsById st aid of
        None \<Rightarrow> (Res 404 (ErrorP (Text ''account not found'')), st, [])
      | Some account \<Rightarrow>
          (case body_field body ''amount'' of
             JNum amount \<Rightarrow>
               if amount = NaN then (Res 400 (ErrorP (Text ''amount must be a number'')), st, [])
               else let (balance, st') = applyCredit st (account_id account) amount
                    in (Res 200 (CreditP (account_id account) balance), st',
                        [Credited (account_id account) amount])
           | _ \<Rightarrow> (Res 400 (ErrorP (Text ''amount must be a number'')), st, [])))"

text \<open>\<^verbatim>\<open>POST /accounts/onboard\<close>\<close>

definition onboard ::
  "net \<Rightarrow> string \<Rightarrow> js \<Rightarrow> ledger \<Rightarrow> http_response \<times> ledger \<times> event list" where
  "onboard net now body st =
     (let name = body_field body ''name'';
          email = body_field body ''email'';
          productId = body_field body ''productId'';
          initialCredit = (if body_field body ''initialCredit'' = JUndefined then JNum (Fin 0)
                           else body_field body ''initialCredit'')
      in if \<not> truthy name \<or> \<not> truthy email \<or> \<not> truthy productId
         then (Res 400 (ErrorP (Text ''name, email, and productId are required'')), st, [])
         else
     (case fetchJson net (CreateUser name email) of
        Inl e \<Rightarrow> (on_error e, st, [Called (CreateUser name email)])
      | Inr userResponse \<Rightarrow>
     (case unwrap userResponse ''user'' of
        Inl e \<Rightarrow> (on_error e, st, [Called (CreateUser name email)])
      | Inr user \<Rightarrow>
     (case get_prop user ''id'' of
        Inl e \<Rightarrow> (on_error e, st, [Called (CreateUser name email)])
      | Inr uid \<Rightarrow>
          let (account, st1) = createAccount st uid (JStr ''standard'') now;
              (st2, credited) =
                (case initialCredit of
                   JNum n \<Rightarrow>
                     if n \<noteq> NaN
                     then (snd (applyCredit st1 (account_id account) n),
                           [Credited (account_id account) n])
                     else (st1, [])
                 | _ \<Rightarrow> (st1, []));
              c = AssignProduct productId (account_id account);
              trace = [Called (CreateUser name email), Created account] @ credited @ [Called c]
          in (case fetchJson net c of
                Inl e \<Rightarrow> (on_error e, st2, trace)
              | Inr assignmentResponse \<Rightarrow>
                  let balance = balance_or_zero (balancesByAccountId st2 (account_id account))
                  in (case unwrap assignmentResponse ''assignment'' of
                        Inl e \<Rightarrow> (on_error e, st2, trace)
                      | Inr assignment \<Rightarrow>
                          (Res 201 (OnboardP user account assignment balance), st2, trace)))))))"

text \<open>\<^verbatim>\<open>GET /health\<close>\<close>

definition health :: "ledger \<Rightarrow> http_response \<times> ledger \<times> event list" where
  "health st = (Res 200 HealthP, st, [])"

section \<open>Runs of the service\<close>

text \<open>
  A routed request, and the service handling a sequence of requests one after the other from
  a given ledger, each with the network answers and the clock reading it meets. The run
  returns the final ledger and the whole trace.
\<close>

datatype request =
    PostAccounts js
  | GetAccount string
  | ListAccounts js
  | PostCredit string js
  | PostOnboard js
  | GetHealth

fun handle :: "net \<Rightarrow> string \<Rightarrow> request \<Rightarrow> ledger \<Rightarrow> http_response \<times> ledger \<times> event list" where
  "handle net now (PostAccounts body) st = post_accounts net now body st"
| "handle net now (GetAccount aid) st = get_account aid st"
| "handle net now (ListAccounts query) st = list_accounts query st"
| "handle net now (PostCredit aid body) st = credit aid body st"
| "handle net now (PostOnboard body) st = onboard net now body st"
| "handle net now GetHealth st = health st"

fun run :: "ledger \<Rightarrow> (net \<times> string \<times> request) list \<Rightarrow> ledger \<times> event list" where
  "run st [] = (st, [])"
| "run st ((net, now, r) # rest) =
     (case handle net now r st of
        (_, st', ev) \<Rightarrow> (case run st' rest of (st'', evs) \<Rightarrow> (st'', ev @ evs)))"

text \<open>The credits a trace applied to one account id, and the accounts it created, in order.\<close>

fun deltas :: "string \<Rightarrow> event list \<Rightarrow> jsnum list" where
  "deltas i [] = []"
| "deltas i (Credited j d # es) = (if j = i then d # deltas i es else deltas i es)"
| "deltas i (_ # es) = deltas i es"

fun created :: "event list \<Rightarrow> account list" where
  "created [] = []"
| "created (Created a # es) = a # created es"
| "created (_ # es) = created es"

text \<open>
  What repeated \<^verbatim>\<open>applyCredit\<close> makes of a list of deltas, from the balance \<open>0\<close> of a new
  account: each step reads the balance through \<^verbatim>\<open>|| 0\<close> and adds with \<^verbatim>\<open>+\<close>.
\<close>

definition settle :: "jsnum list \<Rightarrow> jsnum" where
  "settle ds = foldl (\<lambda>b d. js_add (balance_or_zero (Some b)) d) (Fin 0) ds"

section \<open>The ledger invariant\<close>

text \<open>
  What holds of the ledger and the trace after every run from the initial ledger: every stored
  id was issued by the counter; balances and accounts have the same ids; an account is stored
  under its own id; the balance of a stored id is what the credits of the trace settle to; an
  id that is not stored was never credited; and the list the user index holds for a key is the
  list of the accounts created for that key, in the order of their creation.
\<close>

definition ledger_inv :: "ledger \<Rightarrow> event list \<Rightarrow> bool" where
  "ledger_inv st evs \<longleftrightarrow>
     (\<forall>i. accountsById st i \<noteq> None \<longrightarrow> (\<exists>k < accountCounter st. i = ''a'' @ digits k))
   \<and> (\<forall>i. (balancesByAccountId st i = None) = (accountsById st i = None))
   \<and> (\<forall>i a. accountsById st i = Some a \<longrightarrow> account_id a = i)
   \<and> (\<forall>i. accountsById st i \<noteq> None \<longrightarrow> balancesByAccountId st i = Some (settle (deltas i evs)))
   \<and> (\<forall>i. accountsById st i = None \<longrightarrow> deltas i evs = [])
   \<and> (\<forall>u. primitive u \<longrightarrow>
          (case map_of (accountsByUserId st) u of None \<Rightarrow> [] | Some xs \<Rightarrow> xs)
            = filter (\<lambda>a. userId a = u) (created evs))"

section \<open>Networks, requests and runs used in the examples\<close>

text \<open>
  Collaborators that accept every call, answering as the mock identity and catalog servers do
  for their first user and their first assignment.
\<close>

fun accepting :: net where
  "accepting (GetUser uid) =
     Reply 200 ''OK'' (JsonText (JObj [(''user'',
       JObj [(''id'', uid), (''name'', JStr ''Mock User''), (''email'', JStr ''mock@example.com'')])]))"
| "accepting (CreateUser name email) =
     Reply 201 ''Created'' (JsonText (JObj [(''user'',
       JObj [(''id'', JStr ''u1''), (''name'', name), (''email'', email)])]))"
| "accepting (AssignProduct productId accountId) =
     Reply 200 ''OK'' (JsonText (JObj [(''assignment'',
       JObj [(''id'', JStr ''as1''), (''productId'', productId), (''accountId'', JStr accountId)])]))"


text \<open>
  The same, with a catalog that names the product in its assignment by the path segment of the
  request as it arrives, which is what the mock catalog server does: the handler writes the id
  into the path with \<^verbatim>\<open>encodeURIComponent\<close>, so the id \<^verbatim>\<open>p 1\<close> arrives as \<^verbatim>\<open>p%201\<close>.
\<close>

fun path_catalog :: net where
  "path_catalog (AssignProduct productId accountId) =
     Reply 200 ''OK'' (JsonText (JObj [(''assignment'',
       JObj [(''id'', JStr ''as1''),
             (''productId'', if productId = JStr ''p 1'' then JStr ''p%201'' else productId),
             (''accountId'', JStr accountId)])]))"
| "path_catalog c = accepting c"







text \<open>
  The onboarding request of the end-to-end scenario, and its variants: for an unknown product
  without and with an initial credit, for the product \<^verbatim>\<open>p 1\<close>, with an initial credit that is a string, and with one that is the
  Number \<^verbatim>\<open>Infinity\<close>, which \<^verbatim>\<open>JSON.parse\<close> delivers for the literal \<^verbatim>\<open>1e999\<close>.
\<close>

definition ada :: js where
  "ada = JObj [(''name'', JStr ''Ada''), (''email'', JStr ''ada@example.com''),
               (''productId'', JStr ''p1''), (''initialCredit'', JNum (Fin 100))]"



definition ada_spaced :: js where
  "ada_spaced = JObj [(''name'', JStr ''Ada''), (''email'', JStr ''ada@example.com''),
                      (''productId'', JStr ''p 1''), (''initialCredit'', JNum (Fin 100))]"

definition ada_text_credit :: js where
  "ada_text_credit = JObj [(''name'', JStr ''Ada''), (''email'', JStr ''ada@example.com''),
                           (''productId'', JStr ''p1''), (''initialCredit'', JStr ''100'')]"

definition ada_infinite :: js where
  "ada_infinite = JObj [(''name'', JStr ''Ada''), (''email'', JStr ''ada@example.com''),
                        (''productId'', JStr ''p1''), (''initialCredit'', JNum PInf)]"

text \<open>
  Three runs of the service: an account that is credited and then overdrawn; an account
  credited with \<open>2 ^ 53\<close> and then with \<open>1\<close>; and three accounts opened for two users.
\<close>

definition overdraft_run :: "(net \<times> string \<times> request) list" where
  "overdraft_run =
     [(accepting, ''t0'', PostAccounts (JObj [(''userId'', JStr ''u7'')])),
      (accepting, ''t1'', PostCredit ''a1'' (JObj [(''amount'', JNum (Fin 100))])),
      (accepting, ''t2'', PostCredit ''a1'' (JObj [(''amount'', JNum (Fin (- 250)))]))]"

definition rounding_run :: "(net \<times> string \<times> request) list" where
  "rounding_run =
     [(accepting, ''t0'', PostAccounts (JObj [(''userId'', JStr ''u7'')])),
      (accepting, ''t1'', PostCredit ''a1'' (JObj [(''amount'', JNum (Fin 9007199254740992))])),
      (accepting, ''t2'', PostCredit ''a1'' (JObj [(''amount'', JNum (Fin 1))]))]"

definition three_accounts :: "(net \<times> string \<times> request) list" where
  "three_accounts =
     [(accepting, ''t0'', PostAccounts (JObj [(''userId'', JStr ''u7'')])),
      (accepting, ''t1'', PostAccounts (JObj [(''userId'', JStr ''u8'')])),
      (accepting, ''t2'', PostAccounts (JObj [(''userId'', JStr ''u7''), (''type'', JStr ''savings'')]))]"

section \<open>Rounding leaves the safe integers unchanged\<close>

lemma pow2_nonpos: "e \<le> 0 \<Longrightarrow> pow2 e = 1 / 2 ^ nat (- e)"
  by (cases "e = 0") (simp_all add: pow2_def)

lemma round_half_even_of_int: "round_half_even (of_int k) = k"
  by (simp add: round_half_even_def)

lemma js_round_pos_int:
  assumes "0 < n" "n < 2 ^ 53"
  shows "js_round (of_int n) = Fin (of_int n)"
proof -
  let ?x = "of_int n :: rat"
  have b1: "1 \<le> bitlen n" using assms by (simp add: bitlen_ge_iff_power)
  have b2: "bitlen n \<le> 53" using assms by (simp add: bitlen_le_iff_power)
  have fl: "floor_log2 ?x = bitlen n - 1" using assms by (simp add: floor_log2_def)
  define e where "e = bitlen n - 53"
  have e: "max (floor_log2 \<bar>?x\<bar> - 52) (- 1074) = e" "e \<le> 0"
    using b1 b2 assms fl by (simp_all add: e_def)
  define k where "k = nat (- e)"
  have p: "pow2 e = 1 / 2 ^ k" using e by (simp add: pow2_nonpos k_def)
  have q: "\<bar>?x\<bar> / pow2 e = of_int (n * 2 ^ k)" using assms by (simp add: p)
  have m: "round_half_even (\<bar>?x\<bar> / pow2 e) = n * 2 ^ k"
    unfolding q by (rule round_half_even_of_int)
  have y: "of_int (n * 2 ^ k) * pow2 e = ?x" by (simp add: p)
  have "(of_int n :: rat) < 2 ^ 53" using assms
    by (metis of_int_less_numeral_power_cancel_iff)
  also have "\<dots> \<le> pow2 1024" by (simp add: pow2_def)
  finally have big: "\<not> pow2 1024 \<le> ?x" by simp
  show ?thesis
    using assms big unfolding js_round_def Let_def e m y by simp
qed

lemma js_round_minus:
  "js_round (- x) =
     (case js_round x of Fin y \<Rightarrow> Fin (- y) | PInf \<Rightarrow> NInf | NInf \<Rightarrow> PInf | NaN \<Rightarrow> NaN)"
  by (cases "x = 0"; cases "0 < x") (simp_all add: js_round_def Let_def)

lemma js_round_safe_int:
  assumes "\<bar>n\<bar> < 2 ^ 53"
  shows "js_round (of_int n) = Fin (of_int n)"
proof -
  consider "n = 0" | "0 < n" | "n < 0" by linarith
  then show ?thesis
  proof cases
    case 1 then show ?thesis by (simp add: js_round_def)
  next
    case 2 with assms show ?thesis by (simp add: js_round_pos_int)
  next
    case 3
    with assms have "js_round (of_int (- n)) = Fin (of_int (- n))"
      by (intro js_round_pos_int) simp_all
    then show ?thesis using js_round_minus [of "of_int (- n)"] by simp
  qed
qed

lemma js_round_numeral:
  "numeral w < (2 ^ 53 :: int) \<Longrightarrow> js_round (numeral w) = Fin (numeral w)"
  using js_round_safe_int [of "numeral w"] by simp

text \<open>At \<open>2 ^ 53\<close> the doubles are two apart: \<open>2 ^ 53 + 1\<close> lies half way and rounds to the even one.\<close>

lemma round_2_53: "js_round 9007199254740992 = Fin 9007199254740992"
  by code_simp

lemma round_2_53_1: "js_round 9007199254740993 = Fin 9007199254740992"
  by code_simp

section \<open>Facts about values, the client and the ledger functions\<close>

lemma body_field_object:
  "body_field (JObj kvs) k = (case map_of kvs k of None \<Rightarrow> JUndefined | Some v \<Rightarrow> v)"
  by (simp add: body_field_def js_or_def)

lemma js_add_zero_left: "is_double n \<Longrightarrow> js_add (Fin 0) n = n"
  by (cases n) simp_all

lemma balance_or_zero_Some: "n \<noteq> NaN \<Longrightarrow> balance_or_zero (Some n) = n"
  by (auto simp add: balance_or_zero_def)

lemma createAccount_account:
  "fst (createAccount st uid ty now) =
     \<lparr>account_id = ''a'' @ digits (accountCounter st), userId = uid, account_type = ty,
      createdAt = now\<rparr>"
  by (simp add: createAccount_def Let_def)

lemma createAccount_lookup:
  assumes "createAccount st uid ty now = (account, st1)"
  shows "accountsById st1 (account_id account) = Some account"
    and "balancesByAccountId st1 (account_id account) = Some (Fin 0)"
  using assms by (auto simp add: createAccount_def Let_def)

lemma applyCredit_new:
  assumes "balancesByAccountId st1 aid = Some (Fin 0)" "is_double n"
  shows "snd (applyCredit st1 aid n) = st1\<lparr>balancesByAccountId := (balancesByAccountId st1)(aid \<mapsto> n)\<rparr>"
  using assms by (simp add: applyCredit_def Let_def balance_or_zero_def js_add_zero_left)

lemma same_balance:
  assumes "balancesByAccountId st1 aid = Some b"
  shows "st1\<lparr>balancesByAccountId := (balancesByAccountId st1)(aid \<mapsto> b)\<rparr> = st1"
proof -
  have "(balancesByAccountId st1)(aid \<mapsto> b) = balancesByAccountId st1"
    using assms by (simp add: fun_upd_idem)
  then show ?thesis by simp
qed



section \<open>The handlers, path by path\<close>

lemma onboard_invalid:
  assumes "\<not> truthy (body_field body ''name'') \<or> \<not> truthy (body_field body ''email'')
           \<or> \<not> truthy (body_field body ''productId'')"
  shows "onboard net now body st =
           (Res 400 (ErrorP (Text ''name, email, and productId are required'')), st, [])"
  using assms by (auto simp add: onboard_def Let_def)

lemma onboard_user_failed:
  assumes "truthy (body_field body ''name'')" "truthy (body_field body ''email'')"
    "truthy (body_field body ''productId'')"
    "fetchJson net (CreateUser (body_field body ''name'') (body_field body ''email'')) = Inl err"
  shows "onboard net now body st =
           (on_error err, st,
            [Called (CreateUser (body_field body ''name'') (body_field body ''email''))])"
  using assms by (simp add: onboard_def Let_def)

lemma onboard_after_user:
  assumes "truthy (body_field body ''name'')" "truthy (body_field body ''email'')"
    "truthy (body_field body ''productId'')"
    "fetchJson net (CreateUser (body_field body ''name'') (body_field body ''email'')) = Inr ur"
    "unwrap ur ''user'' = Inr user" "get_prop user ''id'' = Inr uid"
    "createAccount st uid (JStr ''standard'') now = (account, st1)"
    "(case (if body_field body ''initialCredit'' = JUndefined then JNum (Fin 0)
            else body_field body ''initialCredit'') of
        JNum n \<Rightarrow>
          if n \<noteq> NaN
          then (snd (applyCredit st1 (account_id account) n), [Credited (account_id account) n])
          else (st1, [])
      | _ \<Rightarrow> (st1, [])) = (st2, credited)"
  shows "onboard net now body st =
     (case fetchJson net (AssignProduct (body_field body ''productId'') (account_id account)) of
        Inl e \<Rightarrow>
          (on_error e, st2,
           [Called (CreateUser (body_field body ''name'') (body_field body ''email'')),
            Created account] @ credited @
           [Called (AssignProduct (body_field body ''productId'') (account_id account))])
      | Inr assignmentResponse \<Rightarrow>
          (case unwrap assignmentResponse ''assignment'' of
             Inl e \<Rightarrow>
               (on_error e, st2,
                [Called (CreateUser (body_field body ''name'') (body_field body ''email'')),
                 Created account] @ credited @
                [Called (AssignProduct (body_field body ''productId'') (account_id account))])
           | Inr assignment \<Rightarrow>
               (Res 201 (OnboardP user account assignment
                           (balance_or_zero (balancesByAccountId st2 (account_id account)))),
                st2,
                [Called (CreateUser (body_field body ''name'') (body_field body ''email'')),
                 Created account] @ credited @
                [Called (AssignProduct (body_field body ''productId'') (account_id account))])))"
  using assms by (simp add: onboard_def Let_def split: sum.splits)

text \<open>
  The ledger after the local steps of an onboarding: the new account with the balance \<open>b\<close>,
  which is the initial credit when that is a Number other than NaN (\<open>0\<close> when the field is
  absent) and \<open>0\<close> when the credit is skipped.
\<close>

lemma onboard_local_steps:
  assumes "createAccount st uid (JStr ''standard'') now = (account, st1)"
    "b = (case ic of JUndefined \<Rightarrow> Fin 0 | JNum n \<Rightarrow> if n = NaN then Fin 0 else n | _ \<Rightarrow> Fin 0)"
    "is_double b"
  shows "\<exists>credited.
    (case (if ic = JUndefined then JNum (Fin 0) else ic) of
        JNum n \<Rightarrow>
          if n \<noteq> NaN
          then (snd (applyCredit st1 (account_id account) n), [Credited (account_id account) n])
          else (st1, [])
      | _ \<Rightarrow> (st1, []))
    = (st1\<lparr>balancesByAccountId := (balancesByAccountId st1)(account_id account \<mapsto> b)\<rparr>,
       credited)"
proof -
  note new = createAccount_lookup(2) [OF assms(1)]
  have zero: "js_round 0 = Fin 0" by (simp add: js_round_def)
  show ?thesis
  proof (cases ic)
    case (JNum n)
    then show ?thesis
      using assms(2,3) new by (cases "n = NaN") (simp_all add: applyCredit_new same_balance)
  next
    case JUndefined
    then show ?thesis
      using assms(2) new zero by (simp add: applyCredit_new)
  qed (use assms(2) new in \<open>simp_all add: same_balance\<close>)
qed



section \<open>Account ids are never reused\<close>

lemma digit_inj:
  assumes "a < 10" "b < 10" "digit a = digit b"
  shows "a = b"
proof -
  have "of_char (digit a) = (of_char (digit b) :: nat)" using assms(3) by simp
  then have "(48 + a) mod 256 = (48 + b) mod 256" by (simp add: digit_def)
  then show ?thesis using assms(1,2) by simp
qed

lemma digits_nonempty: "digits n \<noteq> []"
  by (subst digits.simps) simp

lemma digits_inj: "digits n = digits m \<Longrightarrow> n = m"
proof (induction n arbitrary: m rule: digits.induct)
  case (1 n)
  show ?case
  proof (cases "n < 10")
    case small: True
    show ?thesis
    proof (cases "m < 10")
      case True
      with small "1.prems" show ?thesis
        by (simp add: digits.simps [of n] digits.simps [of m] digit_inj)
    next
      case False
      with small "1.prems" have "digits (m div 10) = []"
        by (simp add: digits.simps [of n] digits.simps [of m])
      then show ?thesis by (simp add: digits_nonempty)
    qed
  next
    case big: False
    show ?thesis
    proof (cases "m < 10")
      case True
      with big "1.prems" have "digits (n div 10) = []"
        by (simp add: digits.simps [of n] digits.simps [of m])
      then show ?thesis by (simp add: digits_nonempty)
    next
      case False
      with big "1.prems" have e: "digits (n div 10) = digits (m div 10)"
        "digit (n mod 10) = digit (m mod 10)"
        by (simp_all add: digits.simps [of n] digits.simps [of m])
      from "1.IH" [OF big e(1)] have "n div 10 = m div 10" .
      moreover from e(2) have "n mod 10 = m mod 10" by (intro digit_inj) simp_all
      ultimately show ?thesis by (metis div_mult_mod_eq)
    qed
  qed
qed

section \<open>Traces\<close>

lemma deltas_append: "deltas i (xs @ ys) = deltas i xs @ deltas i ys"
  by (induction i xs rule: deltas.induct) simp_all

lemma created_append: "created (xs @ ys) = created xs @ created ys"
  by (induction xs rule: created.induct) simp_all

lemma settle_snoc: "settle (ds @ [d]) = js_add (balance_or_zero (Some (settle ds))) d"
  by (simp add: settle_def)

lemma settle_Nil: "settle [] = Fin 0"
  by (simp add: settle_def)

section \<open>The user index\<close>

lemma map_of_map_put: "map_of (map_put m k v) u = (if u = k then Some v else map_of m u)"
  by (induction m) auto

lemma map_of_map_set:
  assumes "primitive u"
  shows "map_of (map_set m k v) u = (if u = k then Some v else map_of m u)"
proof (cases "primitive k")
  case True
  then show ?thesis by (simp add: map_set_def map_of_map_put)
next
  case False
  with assms have "u \<noteq> k" by auto
  with False show ?thesis
    by (simp add: map_set_def map_add_def split: option.splits)
qed

section \<open>Every step keeps the invariant\<close>

lemma inv_initial: "ledger_inv initial []"
  by (simp add: ledger_inv_def initial_def settle_Nil)

lemma inv_called: "ledger_inv st evs \<Longrightarrow> ledger_inv st (evs @ [Called c])"
  by (simp add: ledger_inv_def deltas_append created_append)

lemma inv_create:
  assumes "ledger_inv st evs" "createAccount st uid ty now = (a, st1)"
  shows "ledger_inv st1 (evs @ [Created a])"
proof -
  let ?new = "''a'' @ digits (accountCounter st)"
  have a: "a = \<lparr>account_id = ?new, userId = uid, account_type = ty, createdAt = now\<rparr>"
    using assms(2) createAccount_account [of st uid ty now] by simp
  have existing: "(case map_get (accountsByUserId st) uid of None \<Rightarrow> [] | Some xs \<Rightarrow> xs)
          = (if primitive uid then filter (\<lambda>a. userId a = uid) (created evs) else [])"
    using assms(1) by (simp add: ledger_inv_def map_get_def)
  have st1: "st1 = st\<lparr>accountCounter := Suc (accountCounter st),
             accountsById := (accountsById st)(?new \<mapsto> a),
             accountsByUserId := map_set (accountsByUserId st) uid
               ((case map_get (accountsByUserId st) uid of None \<Rightarrow> [] | Some xs \<Rightarrow> xs) @ [a]),
             balancesByAccountId := (balancesByAccountId st)(?new \<mapsto> Fin 0)\<rparr>"
    using assms(2) a by (simp add: createAccount_def Let_def)
  have fresh: "accountsById st ?new = None"
  proof (rule ccontr)
    assume "accountsById st ?new \<noteq> None"
    with assms(1) obtain k where "k < accountCounter st" "?new = ''a'' @ digits k"
      unfolding ledger_inv_def by blast
    then show False using digits_inj by auto
  qed
  then have quiet: "deltas ?new evs = []"
    using assms(1) by (simp add: ledger_inv_def)
  have 1: "\<forall>i. accountsById st1 i \<noteq> None \<longrightarrow> (\<exists>k < accountCounter st1. i = ''a'' @ digits k)"
    using assms(1) unfolding ledger_inv_def st1 by (auto intro: less_SucI)
  have 2: "\<forall>i. (balancesByAccountId st1 i = None) = (accountsById st1 i = None)"
    using assms(1) unfolding ledger_inv_def st1 by simp
  have 3: "\<forall>i b. accountsById st1 i = Some b \<longrightarrow> account_id b = i"
    using assms(1) unfolding ledger_inv_def st1 by (simp add: a)
  have 4: "\<forall>i. accountsById st1 i \<noteq> None
             \<longrightarrow> balancesByAccountId st1 i = Some (settle (deltas i (evs @ [Created a])))"
    using assms(1) quiet unfolding ledger_inv_def st1 by (simp add: deltas_append settle_Nil)
  have 5: "\<forall>i. accountsById st1 i = None \<longrightarrow> deltas i (evs @ [Created a]) = []"
    using assms(1) unfolding ledger_inv_def st1 by (simp add: deltas_append)
  have 6: "\<forall>u. primitive u \<longrightarrow>
          (case map_of (accountsByUserId st1) u of None \<Rightarrow> [] | Some xs \<Rightarrow> xs)
            = filter (\<lambda>a. userId a = u) (created (evs @ [Created a]))"
  proof (intro allI impI)
    fix u assume u: "primitive u"
    have old: "(case map_of (accountsByUserId st) u of None \<Rightarrow> [] | Some xs \<Rightarrow> xs)
            = filter (\<lambda>a. userId a = u) (created evs)"
      using assms(1) u by (simp add: ledger_inv_def)
    show "(case map_of (accountsByUserId st1) u of None \<Rightarrow> [] | Some xs \<Rightarrow> xs)
            = filter (\<lambda>a. userId a = u) (created (evs @ [Created a]))"
    proof (cases "u = uid")
      case True
      with u show ?thesis
        unfolding st1 existing by (simp add: map_of_map_set created_append a)
    next
      case False
      with u old show ?thesis
        unfolding st1 by (simp add: map_of_map_set created_append a)
    qed
  qed
  show ?thesis
    unfolding ledger_inv_def using 1 2 3 4 5 6 by blast
qed

lemma inv_credit:
  assumes "ledger_inv st evs" "accountsById st i \<noteq> None"
  shows "ledger_inv (snd (applyCredit st i d)) (evs @ [Credited i d])"
proof -
  have bal: "balancesByAccountId st i = Some (settle (deltas i evs))"
    using assms by (simp add: ledger_inv_def)
  show ?thesis
    using assms bal unfolding ledger_inv_def
    by (simp add: applyCredit_def Let_def deltas_append created_append settle_snoc)
qed

lemma onboard_shapes:
  assumes "onboard net now body st = (res, st', ev)"
  shows "(st' = st \<and> (ev = [] \<or> (\<exists>c. ev = [Called c])))
       \<or> (\<exists>uid c1 c2 account st1. createAccount st uid (JStr ''standard'') now = (account, st1)
            \<and> ((st' = st1 \<and> ev = [Called c1, Created account, Called c2])
               \<or> (\<exists>n. st' = snd (applyCredit st1 (account_id account) n)
                     \<and> ev = [Called c1, Created account, Credited (account_id account) n,
                             Called c2])))"
proof (cases "\<not> truthy (body_field body ''name'') \<or> \<not> truthy (body_field body ''email'')
           \<or> \<not> truthy (body_field body ''productId'')")
  case True
  from onboard_invalid [OF this, of net now st] assms show ?thesis by simp
next
  case False
  then have t: "truthy (body_field body ''name'')" "truthy (body_field body ''email'')"
    "truthy (body_field body ''productId'')" by simp_all
  let ?c = "CreateUser (body_field body ''name'') (body_field body ''email'')"
  show ?thesis
  proof (cases "fetchJson net ?c")
    case (Inl err)
    from onboard_user_failed [OF t this, of now st] assms show ?thesis by simp
  next
    case ur: (Inr ur)
    show ?thesis
    proof (cases "unwrap ur ''user''")
      case (Inl e)
      with t ur assms show ?thesis
        by (auto simp add: onboard_def Let_def)
    next
      case user: (Inr user)
      show ?thesis
      proof (cases "get_prop user ''id''")
        case (Inl e)
        with t ur user assms show ?thesis
          by (auto simp add: onboard_def Let_def)
      next
        case uid: (Inr uid)
        obtain account st1 where c: "createAccount st uid (JStr ''standard'') now = (account, st1)"
          by (cases "createAccount st uid (JStr ''standard'') now")
        obtain st2 credited where k:
          "(case (if body_field body ''initialCredit'' = JUndefined then JNum (Fin 0)
                  else body_field body ''initialCredit'') of
              JNum n \<Rightarrow>
                if n \<noteq> NaN
                then (snd (applyCredit st1 (account_id account) n),
                      [Credited (account_id account) n])
                else (st1, [])
            | _ \<Rightarrow> (st1, [])) = (st2, credited)"
          by (meson surj_pair)
        then have shape: "(st2 = st1 \<and> credited = [])
            \<or> (\<exists>n. st2 = snd (applyCredit st1 (account_id account) n)
                   \<and> credited = [Credited (account_id account) n])"
          by (auto split: js.splits if_splits)
        from onboard_after_user [OF t ur user uid c k] assms
        have r: "st' = st2" "ev = [Called ?c, Created account] @ credited @
                [Called (AssignProduct (body_field body ''productId'') (account_id account))]"
          by (auto split: sum.splits)
        from shape show ?thesis
        proof (elim disjE exE conjE)
          assume "st2 = st1" "credited = []"
          with r have "st' = st1 \<and> ev = [Called ?c, Created account,
              Called (AssignProduct (body_field body ''productId'') (account_id account))]"
            by simp
          with c show ?thesis by blast
        next
          fix n
          assume "st2 = snd (applyCredit st1 (account_id account) n)"
            "credited = [Credited (account_id account) n]"
          with r have "st' = snd (applyCredit st1 (account_id account) n)
            \<and> ev = [Called ?c, Created account, Credited (account_id account) n,
              Called (AssignProduct (body_field body ''productId'') (account_id account))]"
            by simp
          with c show ?thesis by blast
        qed
      qed
    qed
  qed
qed

lemma onboard_inv:
  assumes "ledger_inv st evs" "onboard net now body st = (res, st', ev)"
  shows "ledger_inv st' (evs @ ev)"
proof -
  from onboard_shapes [OF assms(2)] consider
      "st' = st" "ev = []"
    | c where "st' = st" "ev = [Called c]"
    | uid c1 c2 account st1 where "createAccount st uid (JStr ''standard'') now = (account, st1)"
        "st' = st1" "ev = [Called c1, Created account, Called c2]"
    | uid c1 c2 account st1 n where "createAccount st uid (JStr ''standard'') now = (account, st1)"
        "st' = snd (applyCredit st1 (account_id account) n)"
        "ev = [Called c1, Created account, Credited (account_id account) n, Called c2]"
    by blast
  then show ?thesis
  proof cases
    case 1
    with assms(1) show ?thesis by simp
  next
    case 2
    with assms(1) show ?thesis by (simp add: inv_called)
  next
    case 3
    have "ledger_inv st1 ((evs @ [Called c1]) @ [Created account])"
      using assms(1) 3(1) by (intro inv_create inv_called)
    then have "ledger_inv st1 (((evs @ [Called c1]) @ [Created account]) @ [Called c2])"
      by (rule inv_called)
    with 3 show ?thesis by simp
  next
    case 4
    have i: "ledger_inv st1 ((evs @ [Called c1]) @ [Created account])"
      using assms(1) 4(1) by (intro inv_create inv_called)
    have "accountsById st1 (account_id account) \<noteq> None"
      using createAccount_lookup(1) [OF 4(1)] by simp
    from inv_credit [OF i this]
    have "ledger_inv st' ((((evs @ [Called c1]) @ [Created account])
             @ [Credited (account_id account) n]) @ [Called c2])"
      unfolding 4(2) by (rule inv_called)
    with 4 show ?thesis by simp
  qed
qed

lemma post_accounts_inv:
  assumes "ledger_inv st evs" "post_accounts net now body st = (res, st', ev)"
  shows "ledger_inv st' (evs @ ev)"
proof (cases "truthy (body_field body ''userId'')")
  case False
  with assms show ?thesis
    by (auto simp add: post_accounts_def Let_def)
next
  case True
  show ?thesis
  proof (cases "ensureUserExists net (body_field body ''userId'')")
    case (Inl e)
    with True assms show ?thesis
      by (auto simp add: post_accounts_def Let_def inv_called)
  next
    case (Inr u)
    let ?ty = "if body_field body ''type'' = JUndefined then JStr ''standard''
               else body_field body ''type''"
    obtain account st1 where
      c: "createAccount st (body_field body ''userId'') ?ty now = (account, st1)"
      by (cases "createAccount st (body_field body ''userId'') ?ty now")
    with True Inr assms(2) have "st' = st1"
      "ev = [Called (GetUser (body_field body ''userId'')), Created account]"
      by (auto simp add: post_accounts_def Let_def)
    moreover have "ledger_inv st1 ((evs @ [Called (GetUser (body_field body ''userId''))])
                      @ [Created account])"
      using assms(1) c by (intro inv_create inv_called)
    ultimately show ?thesis by simp
  qed
qed

lemma credit_inv:
  assumes "ledger_inv st evs" "credit aid body st = (res, st', ev)"
  shows "ledger_inv st' (evs @ ev)"
proof (cases "accountsById st aid")
  case None
  with assms show ?thesis by (simp add: credit_def)
next
  case (Some account)
  with assms(1) have id: "account_id account = aid" by (simp add: ledger_inv_def)
  have known: "accountsById st aid \<noteq> None" using Some by simp
  from assms(2) Some id consider "st' = st" "ev = []"
    | amount where "st' = snd (applyCredit st aid amount)" "ev = [Credited aid amount]"
    by (auto simp add: credit_def split_beta split: js.splits if_splits)
  then show ?thesis
  proof cases
    case 1
    with assms(1) show ?thesis by simp
  next
    case 2
    with inv_credit [OF assms(1) known] show ?thesis by simp
  qed
qed

lemma handle_inv:
  assumes "ledger_inv st evs" "handle net now r st = (res, st', ev)"
  shows "ledger_inv st' (evs @ ev)"
proof (cases r)
  case (PostAccounts body)
  with assms show ?thesis by (simp add: post_accounts_inv)
next
  case (GetAccount aid)
  with assms show ?thesis by (auto simp add: get_account_def split: option.splits)
next
  case (ListAccounts query)
  with assms show ?thesis
    by (auto simp add: list_accounts_def Let_def split: if_splits)
next
  case (PostCredit aid body)
  with assms show ?thesis by (simp add: credit_inv)
next
  case (PostOnboard body)
  with assms show ?thesis by (simp add: onboard_inv)
next
  case GetHealth
  with assms show ?thesis by (simp add: health_def)
qed

lemma run_inv:
  assumes "ledger_inv st evs" "run st inputs = (st', evs')"
  shows "ledger_inv st' (evs @ evs')"
  using assms
proof (induction inputs arbitrary: st evs st' evs')
  case Nil
  then show ?case by simp
next
  case (Cons x inputs)
  obtain net now r where x: "x = (net, now, r)" by (cases x)
  obtain res st1 ev where h: "handle net now r st = (res, st1, ev)"
    by (cases "handle net now r st")
  obtain st2 evs2 where r: "run st1 inputs = (st2, evs2)" by (cases "run st1 inputs")
  from Cons.prems(2) x h r have e: "st' = st2" "evs' = ev @ evs2" by simp_all
  from handle_inv [OF Cons.prems(1) h] have "ledger_inv st1 (evs @ ev)" .
  from Cons.IH [OF this r] show ?case by (simp add: e)
qed

lemma run_initial_inv: "run initial inputs = (st, evs) \<Longrightarrow> ledger_inv st evs"
  using run_inv [OF inv_initial] by fastforce

section \<open>Settling a list of credits\<close>

lemma settle_exact:
  assumes "\<forall>k \<le> length qs. js_round (sum_list (take k qs)) = Fin (sum_list (take k qs))"
  shows "settle (map Fin qs) = Fin (sum_list qs)"
  using assms
proof (induction qs rule: rev_induct)
  case Nil
  then show ?case by (simp add: settle_Nil)
next
  case (snoc q qs)
  have "\<forall>k \<le> length qs. js_round (sum_list (take k qs)) = Fin (sum_list (take k qs))"
  proof (intro allI impI)
    fix k assume "k \<le> length qs"
    with snoc.prems [rule_format, of k] show "js_round (sum_list (take k qs)) = Fin (sum_list (take k qs))"
      by simp
  qed
  then have ih: "settle (map Fin qs) = Fin (sum_list qs)" by (rule snoc.IH)
  from snoc.prems [rule_format, of "Suc (length qs)"]
  have last: "js_round (sum_list qs + q) = Fin (sum_list qs + q)" by simp
  show ?case
    using settle_snoc [of "map Fin qs" "Fin q"] ih last
    by (cases "sum_list qs = 0") (simp_all add: balance_or_zero_def)
qed

lemma sum_list_of_int: "sum_list (map of_int ns) = (of_int (sum_list ns) :: rat)"
  by (induction ns) simp_all

lemma settle_safe_ints:
  assumes "\<forall>k \<le> length ns. \<bar>sum_list (take k ns)\<bar> < 2 ^ 53"
  shows "settle (map (\<lambda>n. Fin (of_int n)) ns) = Fin (of_int (sum_list ns))"
proof -
  have "settle (map Fin (map of_int ns)) = Fin (sum_list (map of_int ns))"
  proof (rule settle_exact, intro allI impI)
    fix k assume "k \<le> length (map rat_of_int ns)"
    then have "\<bar>sum_list (take k ns)\<bar> < 2 ^ 53" using assms by simp
    then show "js_round (sum_list (take k (map rat_of_int ns)))
                 = Fin (sum_list (take k (map rat_of_int ns)))"
      by (simp add: take_map sum_list_of_int js_round_safe_int)
  qed
  then show ?thesis by (simp add: sum_list_of_int comp_def)
qed

text \<open>A stored NaN is read as \<open>0\<close> by the next credit: \<^verbatim>\<open>Infinity\<close>, \<^verbatim>\<open>-Infinity\<close>, \<open>5\<close> settle to \<open>5\<close>.\<close>

lemma settle_reads_NaN_as_zero: "settle [PInf, NInf, Fin 5] = Fin 5"
  by (simp add: settle_def balance_or_zero_def js_round_numeral)

section \<open>Evaluating the examples\<close>

lemma digits_1: "digits (Suc 0) = ''1''"
  by code_simp

lemma digits_2: "digits (Suc (Suc 0)) = ''2''"
  by code_simp

lemma digits_3: "digits (Suc (Suc (Suc 0))) = ''3''"
  by code_simp

lemma is_double_100: "is_double (Fin 100)"
  by (simp add: js_round_numeral)

lemma ada_fields:
  "body_field ada ''name'' = JStr ''Ada''"
  "body_field ada ''email'' = JStr ''ada@example.com''"
  "body_field ada ''productId'' = JStr ''p1''"
  "body_field ada ''initialCredit'' = JNum (Fin 100)"
  by (simp_all add: ada_def body_field_object)



lemma accepting_createUser:
  "fetchJson accepting (CreateUser n e) =
     Inr (JObj [(''user'', JObj [(''id'', JStr ''u1''), (''name'', n), (''email'', e)])])"
  "unwrap (JObj [(''user'', JObj [(''id'', JStr ''u1''), (''name'', n), (''email'', e)])]) ''user''
     = Inr (JObj [(''id'', JStr ''u1''), (''name'', n), (''email'', e)])"
  "get_prop (JObj [(''id'', JStr ''u1''), (''name'', n), (''email'', e)]) ''id'' = Inr (JStr ''u1'')"
  by (simp_all add: fetchJson_def ok_def unwrap_def js_or_def)

lemma accepting_assign:
  "fetchJson accepting (AssignProduct p a) =
     Inr (JObj [(''assignment'',
            JObj [(''id'', JStr ''as1''), (''productId'', p), (''accountId'', JStr a)])])"
  "unwrap (JObj [(''assignment'',
            JObj [(''id'', JStr ''as1''), (''productId'', p), (''accountId'', JStr a)])])
          ''assignment''
     = Inr (JObj [(''id'', JStr ''as1''), (''productId'', p), (''accountId'', JStr a)])"
  "get_prop (JObj [(''id'', JStr ''as1''), (''productId'', p), (''accountId'', JStr a)])
            ''productId'' = Inr p"
  by (simp_all add: fetchJson_def ok_def unwrap_def js_or_def)

lemma accepting_user: "ensureUserExists accepting uid =
    Inr (JObj [(''id'', uid), (''name'', JStr ''Mock User''), (''email'', JStr ''mock@example.com'')])"
  by (simp add: ensureUserExists_def fetchJson_def ok_def unwrap_def js_or_def)



lemma first_account:
  "createAccount initial uid ty now =
     (\<lparr>account_id = ''a1'', userId = uid, account_type = ty, createdAt = now\<rparr>,
      snd (createAccount initial uid ty now))"
  by (simp add: createAccount_def Let_def initial_def digits_1)

lemmas evaluate_run = post_accounts_def credit_def body_field_object accepting_user
  createAccount_def applyCredit_def Let_def initial_def digits_1 digits_2 digits_3
  map_get_def map_set_def

section \<open>Failure of the product assignment: no rollback\<close>




section \<open>Balances and the credits applied\<close>

text \<open>
  C2, as the code has it. After every run of requests from the initial ledger, an id has a
  balance exactly when it has an account, and the balance of an account is what repeated
  \<^verbatim>\<open>applyCredit\<close> made of the deltas credited to it, starting from \<open>0\<close>: each step reads
  the stored balance through \<^verbatim>\<open>|| 0\<close>, so that a stored NaN is read as \<open>0\<close>, as \<open>0\<close> itself
  is, and adds the delta to what it read with the addition of Numbers. This is their
  arithmetic sum whenever every delta is finite and every running sum is a value that
  rounding to a double leaves unchanged; in particular for integer deltas, negative ones
  included, whose running sums stay within \<open>\<plusminus>(2 ^ 53 - 1)\<close>. There is no floor.
\<close>

theorem balances_follow_credits:
  assumes "run initial inputs = (st, evs)"
  shows "(\<forall>i. (balancesByAccountId st i \<noteq> None) = (accountsById st i \<noteq> None))
       \<and> (\<forall>i. accountsById st i \<noteq> None
              \<longrightarrow> balancesByAccountId st i = Some (settle (deltas i evs)))
       \<and> (\<forall>i qs. accountsById st i \<noteq> None \<and> deltas i evs = map Fin qs
                \<and> (\<forall>k \<le> length qs. js_round (sum_list (take k qs)) = Fin (sum_list (take k qs)))
              \<longrightarrow> balancesByAccountId st i = Some (Fin (sum_list qs)))
       \<and> (\<forall>i ns. accountsById st i \<noteq> None \<and> deltas i evs = map (\<lambda>n. Fin (of_int n)) ns
                \<and> (\<forall>k \<le> length ns. \<bar>sum_list (take k ns)\<bar> < 2 ^ 53)
              \<longrightarrow> balancesByAccountId st i = Some (Fin (of_int (sum_list ns))))"
proof -
  from run_initial_inv [OF assms] have inv: "ledger_inv st evs" .
  then have same: "\<forall>i. (balancesByAccountId st i \<noteq> None) = (accountsById st i \<noteq> None)"
    and bal: "\<forall>i. accountsById st i \<noteq> None
                \<longrightarrow> balancesByAccountId st i = Some (settle (deltas i evs))"
    by (simp_all add: ledger_inv_def)
  show ?thesis
    using same bal by (auto simp add: settle_exact settle_safe_ints)
qed

theorem balances_follow_credits_witness:
  "accountsById (fst (run initial overdraft_run)) ''a1'' \<noteq> None \<and>
   deltas ''a1'' (snd (run initial overdraft_run)) = [Fin 100, Fin (- 250)] \<and>
   \<bar>100 :: int\<bar> < 2 ^ 53 \<and> \<bar>100 + (- 250) :: int\<bar> < 2 ^ 53 \<and>
   balancesByAccountId (fst (run initial overdraft_run)) ''a1'' = Some (Fin (- 150))"
proof -
  have r: "run initial overdraft_run = (fst (run initial overdraft_run), snd (run initial overdraft_run))"
    by simp
  have a: "accountsById (fst (run initial overdraft_run)) ''a1'' \<noteq> None"
    by (simp add: overdraft_run_def evaluate_run split_beta)
  have d: "deltas ''a1'' (snd (run initial overdraft_run)) = map (\<lambda>n. Fin (of_int n)) [100, - 250]"
    by (simp add: overdraft_run_def evaluate_run split_beta)
  have s: "\<forall>k \<le> length [100, - 250 :: int]. \<bar>sum_list (take k [100, - 250 :: int])\<bar> < 2 ^ 53"
    by (auto simp add: take_Cons')
  from balances_follow_credits [OF r] a d s
  have "balancesByAccountId (fst (run initial overdraft_run)) ''a1''
          = Some (Fin (of_int (sum_list [100, - 250])))"
    by blast
  with a d s show ?thesis by simp
qed

text \<open>
  C2 as stated fails where the addition of doubles rounds: after the credits \<open>2 ^ 53\<close> and
  \<open>1\<close>, both of them doubles, the balance of the account is \<open>2 ^ 53\<close>, which is not their sum.
\<close>

theorem balance_not_sum_counterexample:
  "deltas ''a1'' (snd (run initial rounding_run)) = [Fin 9007199254740992, Fin 1] \<and>
   is_double (Fin 9007199254740992) \<and> is_double (Fin 1) \<and>
   balancesByAccountId (fst (run initial rounding_run)) ''a1'' = Some (Fin 9007199254740992) \<and>
   Fin (sum_list [9007199254740992, 1]) \<noteq> Fin 9007199254740992"
proof -
  have one: "js_round 1 = Fin 1"
    using js_round_safe_int [of 1] by simp
  have "deltas ''a1'' (snd (run initial rounding_run)) = [Fin 9007199254740992, Fin 1]"
    by (simp add: rounding_run_def evaluate_run split_beta)
  moreover have "balancesByAccountId (fst (run initial rounding_run)) ''a1''
                   = Some (Fin 9007199254740992)"
    by (simp add: rounding_run_def evaluate_run split_beta balance_or_zero_def
          round_2_53 round_2_53_1)
  ultimately show ?thesis by (simp add: round_2_53 one)
qed

section \<open>How a downstream failure reaches the caller\<close>




section \<open>Full success of an onboarding\<close>

text \<open>
  C4, as the code has it. Take an onboarding request with truthy \<^verbatim>\<open>name\<close>, \<^verbatim>\<open>email\<close> and
  \<^verbatim>\<open>productId\<close> and an \<^verbatim>\<open>initialCredit\<close> that is a Number \<open>n\<close> other than NaN. If the
  user-creation call succeeds and yields the user, and the assignment call succeeds and yields
  an assignment, the handler answers 201 with the user, the new account, that assignment as
  the catalog returned it, and the balance \<open>n\<close>; the balance is the one stored in the ledger
  after the credit.
\<close>

theorem onboard_success:
  assumes "truthy (body_field body ''name'')" "truthy (body_field body ''email'')"
    "truthy (body_field body ''productId'')"
    "fetchJson net (CreateUser (body_field body ''name'') (body_field body ''email'')) = Inr ur"
    "unwrap ur ''user'' = Inr user" "get_prop user ''id'' = Inr uid"
    "createAccount st uid (JStr ''standard'') now = (account, st1)"
    "body_field body ''initialCredit'' = JNum n" "n \<noteq> NaN" "is_double n"
    "fetchJson net (AssignProduct (body_field body ''productId'') (account_id account)) = Inr ar"
    "unwrap ar ''assignment'' = Inr assignment"
  shows "fst (onboard net now body st) = Res 201 (OnboardP user account assignment n)
         \<and> balancesByAccountId (fst (snd (onboard net now body st))) (account_id account)
             = Some n"
proof -
  let ?st' = "st1\<lparr>balancesByAccountId := (balancesByAccountId st1)(account_id account \<mapsto> n)\<rparr>"
  have b: "n = (case body_field body ''initialCredit'' of
            JUndefined \<Rightarrow> Fin 0 | JNum n \<Rightarrow> if n = NaN then Fin 0 else n | _ \<Rightarrow> Fin 0)"
    using assms(8,9) by simp
  obtain credited where
    "(case (if body_field body ''initialCredit'' = JUndefined then JNum (Fin 0)
            else body_field body ''initialCredit'') of
        JNum n \<Rightarrow>
          if n \<noteq> NaN
          then (snd (applyCredit st1 (account_id account) n), [Credited (account_id account) n])
          else (st1, [])
      | _ \<Rightarrow> (st1, [])) = (?st', credited)"
    using onboard_local_steps [OF assms(7) b assms(10)] by blast
  note run = onboard_after_user [OF assms(1-7) this]
  show ?thesis
    using assms(9) by (simp add: run assms(11,12) balance_or_zero_Some)
qed

theorem onboard_success_witness:
  "truthy (body_field ada ''name'') \<and> truthy (body_field ada ''email'') \<and>
   truthy (body_field ada ''productId'') \<and>
   body_field ada ''initialCredit'' = JNum (Fin 100) \<and> is_double (Fin 100) \<and>
   fst (onboard accepting ''t0'' ada initial) =
     Res 201 (OnboardP
       (JObj [(''id'', JStr ''u1''), (''name'', JStr ''Ada''), (''email'', JStr ''ada@example.com'')])
       \<lparr>account_id = ''a1'', userId = JStr ''u1'', account_type = JStr ''standard'',
        createdAt = ''t0''\<rparr>
       (JObj [(''id'', JStr ''as1''), (''productId'', JStr ''p1''), (''accountId'', JStr ''a1'')])
       (Fin 100)) \<and>
   balancesByAccountId (fst (snd (onboard accepting ''t0'' ada initial))) ''a1'' = Some (Fin 100)"
proof -
  let ?acc = "\<lparr>account_id = ''a1'', userId = JStr ''u1'', account_type = JStr ''standard'',
               createdAt = ''t0''\<rparr>"
  let ?st1 = "snd (createAccount initial (JStr ''u1'') (JStr ''standard'') ''t0'')"
  have t: "truthy (body_field ada ''name'')" "truthy (body_field ada ''email'')"
    "truthy (body_field ada ''productId'')"
    by (simp_all add: ada_fields)
  have c: "createAccount initial (JStr ''u1'') (JStr ''standard'') ''t0'' = (?acc, ?st1)"
    by (rule first_account)
  have n: "Fin 100 \<noteq> NaN" by simp
  have a: "fetchJson accepting (AssignProduct (body_field ada ''productId'') (account_id ?acc))
           = Inr (JObj [(''assignment'', JObj [(''id'', JStr ''as1''),
                   (''productId'', body_field ada ''productId''), (''accountId'', JStr ''a1'')])])"
    by (simp add: accepting_assign)
  from onboard_success
         [OF t accepting_createUser c ada_fields(4) n is_double_100 a accepting_assign(2)] t
  show ?thesis by (simp add: ada_fields is_double_100 del: is_double.simps)
qed

text \<open>
  C4 as stated fails in its last part: the handler does not look at the assignment, so its
  \<^verbatim>\<open>productId\<close> is whatever the catalog wrote. For the product \<^verbatim>\<open>p 1\<close> and a catalog that
  names the product by the request path, both calls succeed and the answer is 201 with the
  assignment of \<^verbatim>\<open>p%201\<close>.
\<close>

theorem onboard_success_counterexample:
  "body_field ada_spaced ''productId'' = JStr ''p 1'' \<and>
   fst (onboard path_catalog ''t0'' ada_spaced initial) =
     Res 201 (OnboardP
       (JObj [(''id'', JStr ''u1''), (''name'', JStr ''Ada''), (''email'', JStr ''ada@example.com'')])
       \<lparr>account_id = ''a1'', userId = JStr ''u1'', account_type = JStr ''standard'',
        createdAt = ''t0''\<rparr>
       (JObj [(''id'', JStr ''as1''), (''productId'', JStr ''p%201''), (''accountId'', JStr ''a1'')])
       (Fin 100)) \<and>
   JStr ''p%201'' \<noteq> JStr ''p 1''"
  by (simp add: ada_spaced_def body_field_object onboard_def fetchJson_def
        ok_def unwrap_def js_or_def createAccount_def applyCredit_def balance_or_zero_def
        map_get_def map_set_def Let_def initial_def digits_1 js_round_numeral)

section \<open>Validation of an onboarding request\<close>

text \<open>
  C5. An onboarding request whose \<^verbatim>\<open>name\<close>, \<^verbatim>\<open>email\<close> or \<^verbatim>\<open>productId\<close> is missing (a missing
  field reads as \<^verbatim>\<open>undefined\<close>, which is falsy; the same holds for any other falsy value) is
  answered 400 whatever the network would answer, with an empty trace, so no downstream call
  was attempted, and with the ledger exactly as it was.
\<close>

theorem onboard_missing_field:
  assumes "\<not> truthy (body_field body ''name'') \<or> \<not> truthy (body_field body ''email'')
           \<or> \<not> truthy (body_field body ''productId'')"
  shows "onboard net now body st =
           (Res 400 (ErrorP (Text ''name, email, and productId are required'')), st, [])"
  using assms by (rule onboard_invalid)

theorem onboard_missing_field_witness:
  "body_field (JObj [(''name'', JStr ''Ada''), (''productId'', JStr ''p1'')]) ''email'' = JUndefined \<and>
   onboard accepting ''t0'' (JObj [(''name'', JStr ''Ada''), (''productId'', JStr ''p1'')]) initial =
     (Res 400 (ErrorP (Text ''name, email, and productId are required'')), initial, [])"
  using onboard_missing_field
    [of "JObj [(''name'', JStr ''Ada''), (''productId'', JStr ''p1'')]" accepting "''t0''" initial]
  by (simp add: body_field_object)

section \<open>Failure of the user-creation call\<close>




section \<open>An initial credit that is not a Number\<close>

text \<open>
  C7, as the code has it. If \<^verbatim>\<open>initialCredit\<close> is present but is not a Number (a string, a
  boolean, \<^verbatim>\<open>null\<close>, an array or an object), or is NaN, the credit step is skipped: once the
  user exists the ledger left is the one \<^verbatim>\<open>createAccount\<close> produced, with balance \<open>0\<close> for
  the new account, the trace holds no credit, and the answer depends on the assignment call
  alone: 201 with balance \<open>0\<close> when it succeeds, its failure otherwise.
\<close>

theorem onboard_credit_skipped:
  assumes "truthy (body_field body ''name'')" "truthy (body_field body ''email'')"
    "truthy (body_field body ''productId'')"
    "fetchJson net (CreateUser (body_field body ''name'') (body_field body ''email'')) = Inr ur"
    "unwrap ur ''user'' = Inr user" "get_prop user ''id'' = Inr uid"
    "createAccount st uid (JStr ''standard'') now = (account, st1)"
    "body_field body ''initialCredit'' \<noteq> JUndefined"
    "\<And>n. body_field body ''initialCredit'' = JNum n \<Longrightarrow> n = NaN"
  shows "fst (snd (onboard net now body st)) = st1
         \<and> balancesByAccountId st1 (account_id account) = Some (Fin 0)
         \<and> snd (snd (onboard net now body st)) =
             [Called (CreateUser (body_field body ''name'') (body_field body ''email'')),
              Created account,
              Called (AssignProduct (body_field body ''productId'') (account_id account))]
         \<and> (\<forall>ar g. fetchJson net (AssignProduct (body_field body ''productId'')
                                     (account_id account)) = Inr ar
                    \<longrightarrow> unwrap ar ''assignment'' = Inr g
                    \<longrightarrow> fst (onboard net now body st) = Res 201 (OnboardP user account g (Fin 0)))
         \<and> (\<forall>err. fetchJson net (AssignProduct (body_field body ''productId'')
                                     (account_id account)) = Inl err
                    \<longrightarrow> fst (onboard net now body st) = on_error err)"
proof -
  have skip:
    "(case (if body_field body ''initialCredit'' = JUndefined then JNum (Fin 0)
            else body_field body ''initialCredit'') of
        JNum n \<Rightarrow>
          if n \<noteq> NaN
          then (snd (applyCredit st1 (account_id account) n), [Credited (account_id account) n])
          else (st1, [])
      | _ \<Rightarrow> (st1, [])) = (st1, [])"
    using assms(8,9) by (cases "body_field body ''initialCredit''") auto
  note run = onboard_after_user [OF assms(1-7) skip]
  note new = createAccount_lookup(2) [OF assms(7)]
  show ?thesis
    using new by (auto simp add: run balance_or_zero_def split: sum.splits)
qed

theorem onboard_credit_skipped_witness:
  "truthy (body_field ada_text_credit ''name'') \<and> truthy (body_field ada_text_credit ''email'') \<and>
   truthy (body_field ada_text_credit ''productId'') \<and>
   body_field ada_text_credit ''initialCredit'' = JStr ''100'' \<and>
   fst (onboard accepting ''t0'' ada_text_credit initial) =
     Res 201 (OnboardP
       (JObj [(''id'', JStr ''u1''), (''name'', JStr ''Ada''), (''email'', JStr ''ada@example.com'')])
       \<lparr>account_id = ''a1'', userId = JStr ''u1'', account_type = JStr ''standard'',
        createdAt = ''t0''\<rparr>
       (JObj [(''id'', JStr ''as1''), (''productId'', JStr ''p1''), (''accountId'', JStr ''a1'')])
       (Fin 0)) \<and>
   balancesByAccountId (fst (snd (onboard accepting ''t0'' ada_text_credit initial))) ''a1''
     = Some (Fin 0)"
proof -
  let ?acc = "\<lparr>account_id = ''a1'', userId = JStr ''u1'', account_type = JStr ''standard'',
               createdAt = ''t0''\<rparr>"
  let ?st1 = "snd (createAccount initial (JStr ''u1'') (JStr ''standard'') ''t0'')"
  have f: "body_field ada_text_credit ''name'' = JStr ''Ada''"
    "body_field ada_text_credit ''email'' = JStr ''ada@example.com''"
    "body_field ada_text_credit ''productId'' = JStr ''p1''"
    "body_field ada_text_credit ''initialCredit'' = JStr ''100''"
    by (simp_all add: ada_text_credit_def body_field_object)
  have t: "truthy (body_field ada_text_credit ''name'')"
    "truthy (body_field ada_text_credit ''email'')"
    "truthy (body_field ada_text_credit ''productId'')"
    by (simp_all add: f)
  have c: "createAccount initial (JStr ''u1'') (JStr ''standard'') ''t0'' = (?acc, ?st1)"
    by (rule first_account)
  have p: "body_field ada_text_credit ''initialCredit'' \<noteq> JUndefined" by (simp add: f)
  have q: "n = NaN" if "body_field ada_text_credit ''initialCredit'' = JNum n" for n
    using that by (simp add: f)
  from onboard_credit_skipped [OF t accepting_createUser c p q] t
  show ?thesis by (simp add: f accepting_assign)
qed

text \<open>
  C7 as stated fails for an infinity, which is a Number but not a finite one: the guard only
  excludes NaN, so the credit is applied and the new account's balance is \<^verbatim>\<open>Infinity\<close>.
\<close>

theorem onboard_infinite_credit_counterexample:
  "body_field ada_infinite ''initialCredit'' = JNum PInf \<and>
   balancesByAccountId (fst (snd (onboard accepting ''t0'' ada_infinite initial))) ''a1''
     = Some PInf \<and>
   snd (snd (onboard accepting ''t0'' ada_infinite initial)) =
     [Called (CreateUser (JStr ''Ada'') (JStr ''ada@example.com'')),
      Created \<lparr>account_id = ''a1'', userId = JStr ''u1'', account_type = JStr ''standard'',
               createdAt = ''t0''\<rparr>,
      Credited ''a1'' PInf,
      Called (AssignProduct (JStr ''p1'') ''a1'')]"
  by (simp add: ada_infinite_def body_field_object onboard_def fetchJson_def
        ok_def unwrap_def js_or_def createAccount_def applyCredit_def balance_or_zero_def
        map_get_def map_set_def Let_def initial_def digits_1)

section \<open>Crediting an unknown account\<close>

text \<open>
  C8. For every account id that the ledger does not hold, \<^verbatim>\<open>POST /accounts/:id/credit\<close>
  answers 404 "account not found", whatever the body, and leaves the whole ledger as it was:
  no account and no balance entry is created, and nothing is credited.
\<close>

theorem credit_unknown_account:
  assumes "accountsById st aid = None"
  shows "credit aid body st = (Res 404 (ErrorP (Text ''account not found'')), st, [])"
  using assms by (simp add: credit_def)

theorem credit_unknown_account_witness:
  "accountsById initial ''a9'' = None \<and>
   credit ''a9'' (JObj [(''amount'', JNum (Fin 5))]) initial
     = (Res 404 (ErrorP (Text ''account not found'')), initial, [])"
  using credit_unknown_account [of initial "''a9''" "JObj [(''amount'', JNum (Fin 5))]"]
  by (simp add: initial_def)

section \<open>Listing the accounts of a user\<close>

text \<open>
  C9. After every run of requests from the initial ledger, \<^verbatim>\<open>GET /accounts?userId=u\<close> with a
  truthy \<open>u\<close> answers 200 with the accounts created for \<open>u\<close>, in the order of their creation
  (an array or an object is never the user id of a stored account: it is a key by identity).
  When no account was created for \<open>u\<close> the answer is 200 with the empty list.
\<close>

theorem list_accounts_creation_order:
  assumes "run initial inputs = (st, evs)" "truthy (body_field query ''userId'')"
    "u = body_field query ''userId''"
  shows "list_accounts query st =
           (Res 200 (AccountsP (filter (\<lambda>a. primitive u \<and> userId a = u) (created evs))), st, [])
       \<and> ((\<forall>a \<in> set (created evs). userId a \<noteq> u)
            \<longrightarrow> list_accounts query st = (Res 200 (AccountsP []), st, []))"
proof -
  from run_initial_inv [OF assms(1)] have inv: "ledger_inv st evs" .
  have l: "(case map_get (accountsByUserId st) u of None \<Rightarrow> [] | Some xs \<Rightarrow> xs)
             = filter (\<lambda>a. primitive u \<and> userId a = u) (created evs)"
  proof (cases "primitive u")
    case True
    with inv show ?thesis by (simp add: ledger_inv_def map_get_def)
  next
    case False
    then show ?thesis by (simp add: map_get_def)
  qed
  have r: "list_accounts query st =
           (Res 200 (AccountsP (filter (\<lambda>a. primitive u \<and> userId a = u) (created evs))), st, [])"
    using assms(2) l by (simp add: list_accounts_def Let_def assms(3))
  moreover have "filter (\<lambda>a. primitive u \<and> userId a = u) (created evs) = []"
    if "\<forall>a \<in> set (created evs). userId a \<noteq> u"
    using that by (simp add: filter_empty_conv)
  ultimately show ?thesis by simp
qed

theorem list_accounts_creation_order_witness:
  "truthy (body_field (JObj [(''userId'', JStr ''u7'')]) ''userId'') \<and>
   fst (list_accounts (JObj [(''userId'', JStr ''u7'')]) (fst (run initial three_accounts))) =
     Res 200 (AccountsP
       [\<lparr>account_id = ''a1'', userId = JStr ''u7'', account_type = JStr ''standard'',
         createdAt = ''t0''\<rparr>,
        \<lparr>account_id = ''a3'', userId = JStr ''u7'', account_type = JStr ''savings'',
         createdAt = ''t2''\<rparr>]) \<and>
   truthy (body_field (JObj [(''userId'', JStr ''nobody'')]) ''userId'') \<and>
   fst (list_accounts (JObj [(''userId'', JStr ''nobody'')]) (fst (run initial three_accounts))) =
     Res 200 (AccountsP [])"
proof -
  have r: "run initial three_accounts = (fst (run initial three_accounts), snd (run initial three_accounts))"
    by simp
  have c: "created (snd (run initial three_accounts)) =
       [\<lparr>account_id = ''a1'', userId = JStr ''u7'', account_type = JStr ''standard'',
         createdAt = ''t0''\<rparr>,
        \<lparr>account_id = ''a2'', userId = JStr ''u8'', account_type = JStr ''standard'',
         createdAt = ''t1''\<rparr>,
        \<lparr>account_id = ''a3'', userId = JStr ''u7'', account_type = JStr ''savings'',
         createdAt = ''t2''\<rparr>]"
    by (simp add: three_accounts_def evaluate_run split_beta)
  have t: "truthy (body_field (JObj [(''userId'', JStr ''u7'')]) ''userId'')"
    "truthy (body_field (JObj [(''userId'', JStr ''nobody'')]) ''userId'')"
    by (simp_all add: body_field_object)
  from list_accounts_creation_order [OF r t(1) refl] list_accounts_creation_order [OF r t(2) refl] t
  show ?thesis by (simp add: c body_field_object)
qed

section \<open>The type of an account created by POST /accounts\<close>

text \<open>
  C10. When \<^verbatim>\<open>POST /accounts\<close> carries a truthy \<^verbatim>\<open>userId\<close> that the identity service
  confirms, the answer is 201 with the new account, which is also stored under its id. Its type
  is the string "standard" when the body has no \<^verbatim>\<open>type\<close> field, and otherwise exactly the
  value of that field.
\<close>

theorem post_accounts_type:
  assumes "truthy (body_field body ''userId'')"
    "ensureUserExists net (body_field body ''userId'') = Inr u"
    "account = \<lparr>account_id = ''a'' @ digits (accountCounter st),
                userId = body_field body ''userId'',
                account_type = (if body_field body ''type'' = JUndefined then JStr ''standard''
                                else body_field body ''type''),
                createdAt = now\<rparr>"
  shows "fst (post_accounts net now body st) = Res 201 (AccountP account)
         \<and> accountsById (fst (snd (post_accounts net now body st))) (account_id account)
             = Some account
         \<and> (body_field body ''type'' = JUndefined \<longrightarrow> account_type account = JStr ''standard'')
         \<and> (body_field body ''type'' \<noteq> JUndefined
              \<longrightarrow> account_type account = body_field body ''type'')"
  using assms
  by (simp add: post_accounts_def Let_def createAccount_def)

theorem post_accounts_type_witness:
  "truthy (body_field (JObj [(''userId'', JStr ''u7'')]) ''userId'') \<and>
   fst (post_accounts accepting ''t0'' (JObj [(''userId'', JStr ''u7'')]) initial) =
     Res 201 (AccountP \<lparr>account_id = ''a1'', userId = JStr ''u7'',
                         account_type = JStr ''standard'', createdAt = ''t0''\<rparr>) \<and>
   fst (post_accounts accepting ''t0''
          (JObj [(''userId'', JStr ''u7''), (''type'', JStr ''premium'')]) initial) =
     Res 201 (AccountP \<lparr>account_id = ''a1'', userId = JStr ''u7'',
                         account_type = JStr ''premium'', createdAt = ''t0''\<rparr>)"
proof -
  have e: "ensureUserExists accepting (body_field (JObj kvs) ''userId'') =
             Inr (JObj [(''id'', body_field (JObj kvs) ''userId''), (''name'', JStr ''Mock User''),
                        (''email'', JStr ''mock@example.com'')])" for kvs
    by (simp add: ensureUserExists_def fetchJson_def ok_def unwrap_def js_or_def)
  have t: "truthy (body_field (JObj [(''userId'', JStr ''u7'')]) ''userId'')"
    "truthy (body_field (JObj [(''userId'', JStr ''u7''), (''type'', JStr ''premium'')]) ''userId'')"
    by (simp_all add: body_field_object)
  from post_accounts_type [OF t(1) e refl, of "''t0''" initial]
       post_accounts_type [OF t(2) e refl, of "''t0''" initial] t
  show ?thesis by (simp add: body_field_object initial_def digits_1)
qed

end
